theory Spec2Isabelle
  imports Main
begin

section \<open>TaskVault: the login, lockout and one-time-passcode flow\<close>

text \<open>
  The development embeds the server side of TaskVault's authentication:
  the tables of \<^verbatim>\<open>shared/schema.ts\<close>, the queries of \<^verbatim>\<open>DatabaseStorage\<close>
  (\<^verbatim>\<open>server/storage.ts\<close>) and the operations of \<^verbatim>\<open>AuthService\<close>
  (\<^verbatim>\<open>server/auth.ts\<close>).

  Conventions of the embedding:
  \<^item> a table is the list of its rows in insertion order; a query
    \<^verbatim>\<open>const [row] = await db.select()...where(c)\<close> yields the first row that
    satisfies \<open>c\<close>, an \<^verbatim>\<open>update ... where(c)\<close> rewrites every row that satisfies \<open>c\<close>;
  \<^item> a nullable column is an \<open>option\<close>; a timestamp is an \<open>int\<close> (milliseconds
    since the epoch, as \<^verbatim>\<open>Date.getTime()\<close> reads it);
  \<^item> a thrown \<^verbatim>\<open>Error\<close> is the left summand of the result, with the message of the
    source; writes made before the throw stay in the returned database (the source
    opens no transaction);
  \<^item> what the operation takes from outside (the clock, bcrypt, the random code,
    whether the mail transport delivers) is a record \<open>env\<close> passed to the call; all
    clock reads of one call see the same instant.
\<close>

subsection \<open>Schema\<close>

record User =
  id_user :: int
  email_user :: string
  password :: string
  firstName :: "string option"
  lastName :: "string option"
  profileImageUrl :: "string option"
  isLocked :: "bool option"
  failedAttempts :: "int option"
  lastFailedAttempt :: "int option"
  lastLogin :: "int option"
  createdAt_user :: "int option"
  updatedAt_user :: "int option"

record OTP =
  id_otp :: int
  email_otp :: string
  code :: string
  expiresAt :: int
  isUsed :: "bool option"
  attempts :: "int option"
  createdAt_otp :: "int option"

record Task =
  id_task :: int
  userId_task :: int
  description :: string
  isCompleted :: "bool option"
  createdAt_task :: "int option"
  updatedAt_task :: "int option"

record SecurityLog =
  id_log :: int
  userId_log :: "int option"
  email_log :: "string option"
  action :: string
  details :: "string option"
  ipAddress :: "string option"
  userAgent :: "string option"
  success :: bool
  createdAt_log :: "int option"

text \<open>The database: the four tables and the sequences behind the \<^verbatim>\<open>serial\<close> keys.\<close>

record db =
  users :: "User list"
  otps :: "OTP list"
  tasks :: "Task list"
  securityLogs :: "SecurityLog list"
  users_id_seq :: int
  otps_id_seq :: int
  securityLogs_id_seq :: int

definition initial_db :: db where
  "initial_db = \<lparr> users = [], otps = [], tasks = [], securityLogs = [],
                  users_id_seq = 1, otps_id_seq = 1, securityLogs_id_seq = 1 \<rparr>"

text \<open>What a call reads from outside the database.\<close>

record env =
  clock :: int
  bcryptCompare :: "string \<Rightarrow> string \<Rightarrow> bool"
  bcryptHash :: "string \<Rightarrow> string"
  generateOTPCode :: string
  sendMailOk :: bool

datatype error = Error string | TypeError

definition OTP_EXPIRY_MINUTES :: int where "OTP_EXPIRY_MINUTES = 10"
definition MAX_OTP_ATTEMPTS :: int where "MAX_OTP_ATTEMPTS = 3"
definition MAX_LOGIN_ATTEMPTS :: int where "MAX_LOGIN_ATTEMPTS = 5"
definition LOCKOUT_DURATION_MINUTES :: int where "LOCKOUT_DURATION_MINUTES = 30"

subsection \<open>JavaScript coercions used by the source\<close>

text \<open>\<^verbatim>\<open>x || 0\<close> on a nullable number, and \<^verbatim>\<open>null >= n\<close>, both read \<^verbatim>\<open>null\<close> as 0.\<close>

definition orZero :: "int option \<Rightarrow> int" where
  "orZero x = (case x of None \<Rightarrow> 0 | Some n \<Rightarrow> n)"

text \<open>Truthiness of a nullable boolean (\<^verbatim>\<open>if (user.isLocked)\<close>).\<close>

definition truthy :: "bool option \<Rightarrow> bool" where
  "truthy b = (b = Some True)"

text \<open>The decimal rendering of an integer inside a template literal.\<close>

fun digitsOf :: "nat \<Rightarrow> string" where
  "digitsOf n = (if n < 10 then [''0123456789'' ! n]
                 else digitsOf (n div 10) @ [''0123456789'' ! (n mod 10)])"

declare digitsOf.simps [simp del]

definition numberToString :: "int \<Rightarrow> string" where
  "numberToString i = (if i < 0 then CHR ''-'' # digitsOf (nat (- i)) else digitsOf (nat i))"

subsection \<open>DatabaseStorage\<close>

definition getUserByEmail :: "db \<Rightarrow> string \<Rightarrow> User option" where
  "getUserByEmail d email = find (\<lambda>u. email_user u = email) (users d)"

text \<open>
  \<^verbatim>\<open>createUser\<close> inserts the four given columns; the others take their defaults
  (\<^verbatim>\<open>is_locked\<close> false, \<^verbatim>\<open>failed_attempts\<close> 0, the two timestamps now).
\<close>

definition createUser :: "int \<Rightarrow> string \<Rightarrow> string \<Rightarrow> string option \<Rightarrow> string option \<Rightarrow> db \<Rightarrow> User \<times> db" where
  "createUser now email pw fn ln d =
     (let user = \<lparr> id_user = users_id_seq d, email_user = email, password = pw,
                   firstName = fn, lastName = ln, profileImageUrl = None,
                   isLocked = Some False, failedAttempts = Some 0,
                   lastFailedAttempt = None, lastLogin = None,
                   createdAt_user = Some now, updatedAt_user = Some now \<rparr>
      in (user, d\<lparr> users := users d @ [user], users_id_seq := users_id_seq d + 1 \<rparr>))"

definition updateUser :: "int \<Rightarrow> int \<Rightarrow> (User \<Rightarrow> User) \<Rightarrow> db \<Rightarrow> db" where
  "updateUser now uid updates d =
     d\<lparr> users := map (\<lambda>u. if id_user u = uid then (updates u)\<lparr> updatedAt_user := Some now \<rparr> else u)
                     (users d) \<rparr>"

definition updateFailedAttempts :: "int \<Rightarrow> string \<Rightarrow> int \<Rightarrow> db \<Rightarrow> db" where
  "updateFailedAttempts now email n d =
     d\<lparr> users := map (\<lambda>u. if email_user u = email
                           then u\<lparr> failedAttempts := Some n, lastFailedAttempt := Some now,
                                   updatedAt_user := Some now \<rparr>
                           else u) (users d) \<rparr>"

definition lockUser :: "int \<Rightarrow> string \<Rightarrow> db \<Rightarrow> db" where
  "lockUser now email d =
     d\<lparr> users := map (\<lambda>u. if email_user u = email
                           then u\<lparr> isLocked := Some True, updatedAt_user := Some now \<rparr>
                           else u) (users d) \<rparr>"

definition unlockUser :: "int \<Rightarrow> string \<Rightarrow> db \<Rightarrow> db" where
  "unlockUser now email d =
     d\<lparr> users := map (\<lambda>u. if email_user u = email
                           then u\<lparr> isLocked := Some False, failedAttempts := Some 0,
                                   lastFailedAttempt := None, updatedAt_user := Some now \<rparr>
                           else u) (users d) \<rparr>"

definition createOTP :: "int \<Rightarrow> string \<Rightarrow> string \<Rightarrow> int \<Rightarrow> db \<Rightarrow> db" where
  "createOTP now email c expires d =
     d\<lparr> otps := otps d @ [\<lparr> id_otp = otps_id_seq d, email_otp = email, code = c,
                             expiresAt = expires, isUsed = Some False, attempts = Some 0,
                             createdAt_otp = Some now \<rparr>],
        otps_id_seq := otps_id_seq d + 1 \<rparr>"

definition validOTP :: "string \<Rightarrow> string \<Rightarrow> int \<Rightarrow> OTP \<Rightarrow> bool" where
  "validOTP email c now otp \<longleftrightarrow>
     email_otp otp = email \<and> code otp = c \<and> isUsed otp = Some False \<and> expiresAt otp > now"

definition getValidOTP :: "int \<Rightarrow> db \<Rightarrow> string \<Rightarrow> string \<Rightarrow> OTP option" where
  "getValidOTP now d email c = find (validOTP email c now) (otps d)"

definition incrementOTPAttempts :: "int \<Rightarrow> db \<Rightarrow> db" where
  "incrementOTPAttempts oid d =
     (case find (\<lambda>otp. id_otp otp = oid) (otps d) of
        None \<Rightarrow> d
      | Some otp \<Rightarrow>
          d\<lparr> otps := map (\<lambda>x. if id_otp x = oid then x\<lparr> attempts := Some (orZero (attempts otp) + 1) \<rparr> else x)
                         (otps d) \<rparr>)"

definition markOTPAsUsed :: "int \<Rightarrow> db \<Rightarrow> db" where
  "markOTPAsUsed oid d =
     d\<lparr> otps := map (\<lambda>x. if id_otp x = oid then x\<lparr> isUsed := Some True \<rparr> else x) (otps d) \<rparr>"

definition cleanupExpiredOTPs :: "int \<Rightarrow> db \<Rightarrow> db" where
  "cleanupExpiredOTPs now d = d\<lparr> otps := filter (\<lambda>x. \<not> expiresAt x < now) (otps d) \<rparr>"

record Analytics =
  completed :: nat
  pending :: nat
  total :: nat

definition getTaskAnalytics :: "db \<Rightarrow> int \<Rightarrow> Analytics" where
  "getTaskAnalytics d userId =
     (let userTasks = filter (\<lambda>t. userId_task t = userId) (tasks d)
      in \<lparr> completed = length (filter (\<lambda>task. truthy (isCompleted task)) userTasks),
           pending = length (filter (\<lambda>task. \<not> truthy (isCompleted task)) userTasks),
           total = length userTasks \<rparr>)"

definition logSecurityEvent ::
  "int \<Rightarrow> int option \<Rightarrow> string option \<Rightarrow> string \<Rightarrow> string option \<Rightarrow> string option \<Rightarrow> string option \<Rightarrow> bool
     \<Rightarrow> db \<Rightarrow> db" where
  "logSecurityEvent now uid email act det ip ua ok d =
     d\<lparr> securityLogs := securityLogs d @
           [\<lparr> id_log = securityLogs_id_seq d, userId_log = uid, email_log = email,
              action = act, details = det, ipAddress = ip, userAgent = ua, success = ok,
              createdAt_log = Some now \<rparr>],
        securityLogs_id_seq := securityLogs_id_seq d + 1 \<rparr>"

subsection \<open>AuthService\<close>

record UserProfile =
  id_profile :: int
  email_profile :: string
  firstName_profile :: "string option"
  lastName_profile :: "string option"
  profileImageUrl_profile :: "string option"
  lastLogin_profile :: "int option"

text \<open>\<^verbatim>\<open>registerUser\<close> returns the id, email, first and last name of the new row.\<close>

definition registerUser ::
  "env \<Rightarrow> string \<Rightarrow> string \<Rightarrow> string option \<Rightarrow> string option \<Rightarrow> db
     \<Rightarrow> (error + int \<times> string \<times> string option \<times> string option) \<times> db" where
  "registerUser e email pw fn ln d =
     (case getUserByEmail d email of
        Some existingUser \<Rightarrow> (Inl (Error ''User already exists''), d)
      | None \<Rightarrow>
          (let (user, d1) = createUser (clock e) email (bcryptHash e pw) fn ln d;
               d2 = logSecurityEvent (clock e) (Some (id_user user)) (Some (email_user user))
                      ''USER_REGISTRATION'' (Some ''New user registered'') None None True d1
           in (Inr (id_user user, email_user user, firstName user, lastName user), d2)))"

text \<open>
  The tail shared by \<^verbatim>\<open>initiateLogin\<close> and \<^verbatim>\<open>resendOTP\<close>: generate the code, store it
  with its expiry, mail it (a transport failure throws here, after the row is
  stored and before the event is logged), log the event.
\<close>

definition issueOTP ::
  "env \<Rightarrow> User \<Rightarrow> string \<Rightarrow> string \<Rightarrow> string \<Rightarrow> string option \<Rightarrow> string option \<Rightarrow> db
     \<Rightarrow> (error + unit) \<times> db" where
  "issueOTP e user email act det ip ua d =
     (let otpCode = generateOTPCode e;
          expires = clock e + OTP_EXPIRY_MINUTES * 60 * 1000;
          d1 = createOTP (clock e) email otpCode expires d
      in if \<not> sendMailOk e then (Inl (Error ''Failed to send verification email''), d1)
         else (Inr (), logSecurityEvent (clock e) (Some (id_user user)) (Some email)
                         act (Some det) ip ua True d1))"

text \<open>
  The password check of \<^verbatim>\<open>initiateLogin\<close> (from \<^verbatim>\<open>// Verify password\<close> to the return).
  \<open>user\<close> is the row read at the start of the call: the counter is computed from
  it, also when the lockout was cleared in between.
\<close>

definition initiateLogin_password ::
  "env \<Rightarrow> User \<Rightarrow> string \<Rightarrow> string \<Rightarrow> string option \<Rightarrow> string option \<Rightarrow> db
     \<Rightarrow> (error + string \<times> string) \<times> db" where
  "initiateLogin_password e user email pw ip ua d =
     (if \<not> bcryptCompare e pw (password user) then
        (let newFailedAttempts = orZero (failedAttempts user) + 1;
             d1 = updateFailedAttempts (clock e) email newFailedAttempts d;
             d2 = (if newFailedAttempts \<ge> MAX_LOGIN_ATTEMPTS then lockUser (clock e) email d1 else d1);
             d3 = logSecurityEvent (clock e) (Some (id_user user)) (Some email) ''LOGIN_ATTEMPT''
                    (Some (''Invalid password - attempt '' @ numberToString newFailedAttempts))
                    ip ua False d2
         in (Inl (Error ''Invalid credentials''), d3))
      else
        (case issueOTP e user email ''OTP_SENT'' ''OTP sent to email'' ip ua d of
           (Inl err, d1) \<Rightarrow> (Inl err, d1)
         | (Inr u, d1) \<Rightarrow> (Inr (''OTP sent to your email'', email), d1)))"

text \<open>
  The lockout check of \<^verbatim>\<open>initiateLogin\<close> (\<^verbatim>\<open>// Check if user is locked\<close>): either the
  call ends here (left), or the database goes on to the password check (right).
  \<^verbatim>\<open>user.lastFailedAttempt!.getTime()\<close> on a null column throws a TypeError.
\<close>

definition initiateLogin_lockout ::
  "env \<Rightarrow> User \<Rightarrow> string \<Rightarrow> string option \<Rightarrow> string option \<Rightarrow> db \<Rightarrow> (error \<times> db) + db" where
  "initiateLogin_lockout e user email ip ua d =
     (if truthy (isLocked user) then
        (case lastFailedAttempt user of
           None \<Rightarrow> Inl (TypeError, d)
         | Some t \<Rightarrow>
             (let lockoutExpiry = t + LOCKOUT_DURATION_MINUTES * 60 * 1000
              in if clock e < lockoutExpiry then
                   Inl (Error ''Account is locked due to too many failed attempts'',
                        logSecurityEvent (clock e) (Some (id_user user)) (Some email) ''LOGIN_ATTEMPT''
                          (Some ''Account locked'') ip ua False d)
                 else Inr (unlockUser (clock e) email d)))
      else Inr d)"

definition initiateLogin ::
  "env \<Rightarrow> string \<Rightarrow> string \<Rightarrow> string option \<Rightarrow> string option \<Rightarrow> db
     \<Rightarrow> (error + string \<times> string) \<times> db" where
  "initiateLogin e email pw ip ua d =
     (case getUserByEmail d email of
        None \<Rightarrow>
          (Inl (Error ''Invalid credentials''),
           logSecurityEvent (clock e) None (Some email) ''LOGIN_ATTEMPT'' (Some ''User not found'')
             ip ua False d)
      | Some user \<Rightarrow>
          (case initiateLogin_lockout e user email ip ua d of
             Inl (err, d1) \<Rightarrow> (Inl err, d1)
           | Inr d1 \<Rightarrow> initiateLogin_password e user email pw ip ua d1))"

definition verifyOTP ::
  "env \<Rightarrow> string \<Rightarrow> string \<Rightarrow> string option \<Rightarrow> string option \<Rightarrow> db \<Rightarrow> (error + UserProfile) \<times> db" where
  "verifyOTP e email c ip ua d =
     (let d1 = cleanupExpiredOTPs (clock e) d
      in case getUserByEmail d1 email of
           None \<Rightarrow> (Inl (Error ''User not found''), d1)
         | Some user \<Rightarrow>
             (case getValidOTP (clock e) d1 email c of
                None \<Rightarrow>
                  (Inl (Error ''Invalid or expired OTP''),
                   logSecurityEvent (clock e) (Some (id_user user)) (Some email) ''OTP_VERIFICATION''
                     (Some ''Invalid or expired OTP'') ip ua False d1)
              | Some otp \<Rightarrow>
                  if orZero (attempts otp) \<ge> MAX_OTP_ATTEMPTS then
                    (Inl (Error ''Maximum OTP attempts exceeded''),
                     logSecurityEvent (clock e) (Some (id_user user)) (Some email) ''OTP_VERIFICATION''
                       (Some ''Maximum OTP attempts exceeded'') ip ua False d1)
                  else
                    (let d2 = markOTPAsUsed (id_otp otp) d1;
                         d3 = updateUser (clock e) (id_user user)
                                (\<lambda>u. u\<lparr> failedAttempts := Some 0, lastFailedAttempt := None,
                                        lastLogin := Some (clock e) \<rparr>) d2;
                         d4 = logSecurityEvent (clock e) (Some (id_user user)) (Some email) ''LOGIN_SUCCESS''
                                (Some ''Successful OTP verification'') ip ua True d3
                     in (Inr \<lparr> id_profile = id_user user, email_profile = email_user user,
                               firstName_profile = firstName user, lastName_profile = lastName user,
                               profileImageUrl_profile = profileImageUrl user,
                               lastLogin_profile = lastLogin user \<rparr>, d4))))"

definition resendOTP ::
  "env \<Rightarrow> string \<Rightarrow> string option \<Rightarrow> string option \<Rightarrow> db \<Rightarrow> (error + string) \<times> db" where
  "resendOTP e email ip ua d =
     (case getUserByEmail d email of
        None \<Rightarrow> (Inl (Error ''User not found''), d)
      | Some user \<Rightarrow>
          (case issueOTP e user email ''OTP_RESENT'' ''OTP resent to email'' ip ua d of
             (Inl err, d1) \<Rightarrow> (Inl err, d1)
           | (Inr u, d1) \<Rightarrow> (Inr ''New OTP sent to your email'', d1)))"

subsection \<open>Reachable databases\<close>

text \<open>
  The databases the service can produce: from the empty one, by any sequence of
  registrations, logins, verifications and resends, with any environment.
\<close>

inductive reachable :: "db \<Rightarrow> bool" where
  reach_init: "reachable initial_db"
| reach_register: "reachable d \<Longrightarrow> reachable (snd (registerUser e email pw fn ln d))"
| reach_login: "reachable d \<Longrightarrow> reachable (snd (initiateLogin e email pw ip ua d))"
| reach_verify: "reachable d \<Longrightarrow> reachable (snd (verifyOTP e email c ip ua d))"
| reach_resend: "reachable d \<Longrightarrow> reachable (snd (resendOTP e email ip ua d))"

subsection \<open>Example data\<close>

text \<open>
  A toy environment: the hash of a password is the password behind a \<open>$\<close>, the clock,
  the generated code and the fate of the mail are given.
\<close>

definition example_env :: "int \<Rightarrow> string \<Rightarrow> bool \<Rightarrow> env" where
  "example_env t c ok =
     \<lparr> clock = t, bcryptCompare = (\<lambda>pw h. h = CHR ''$'' # pw), bcryptHash = (\<lambda>pw. CHR ''$'' # pw),
       generateOTPCode = c, sendMailOk = ok \<rparr>"

definition example_user :: User where
  "example_user =
     \<lparr> id_user = 1, email_user = ''ann@x.org'', password = ''$secret'',
       firstName = Some ''Ann'', lastName = None, profileImageUrl = None,
       isLocked = Some False, failedAttempts = Some 0,
       lastFailedAttempt = None, lastLogin = None,
       createdAt_user = Some 1000, updatedAt_user = Some 1000 \<rparr>"

definition example_otp :: OTP where
  "example_otp =
     \<lparr> id_otp = 1, email_otp = ''ann@x.org'', code = ''111111'', expiresAt = 602000,
       isUsed = Some False, attempts = Some 0, createdAt_otp = Some 2000 \<rparr>"

text \<open>Ann after her registration at time 1000.\<close>

definition db_registered :: db where
  "db_registered = snd (registerUser (example_env 1000 ''000000'' True) ''ann@x.org'' ''secret''
                          (Some ''Ann'') None initial_db)"

text \<open>Then she logs in at time 2000 and is sent the code 111111.\<close>

definition db_challenged :: db where
  "db_challenged = snd (initiateLogin (example_env 2000 ''111111'' True) ''ann@x.org'' ''secret''
                          None None db_registered)"

definition example_tasks :: "Task list" where
  "example_tasks =
     [\<lparr> id_task = 1, userId_task = 1, description = ''write'', isCompleted = Some True,
        createdAt_task = None, updatedAt_task = None \<rparr>,
      \<lparr> id_task = 2, userId_task = 1, description = ''read'', isCompleted = None,
        createdAt_task = None, updatedAt_task = None \<rparr>,
      \<lparr> id_task = 3, userId_task = 2, description = ''rest'', isCompleted = Some False,
        createdAt_task = None, updatedAt_task = None \<rparr>]"

text \<open>Ann asks for a second code at time 3000 and is sent 222222.\<close>

definition db_resent :: db where
  "db_resent = snd (resendOTP (example_env 3000 ''222222'' True) ''ann@x.org'' None None db_challenged)"

text \<open>
  A run of consecutive \<open>initiateLogin\<close> calls for one email, each with its own
  environment, password and client context.
\<close>

fun loginAttempts :: "(env \<times> string \<times> string option \<times> string option) list \<Rightarrow> string \<Rightarrow> db \<Rightarrow> db" where
  "loginAttempts [] email d = d"
| "loginAttempts ((e, pw, ip, ua) # calls) email d =
     loginAttempts calls email (snd (initiateLogin e email pw ip ua d))"

text \<open>After her login Ann's password is guessed wrongly five times, at 3000, ..., 7000.\<close>

definition db_locked :: db where
  "db_locked = loginAttempts
     [(example_env 3000 ''000000'' True, ''guess'', None, None),
      (example_env 4000 ''000000'' True, ''guess'', None, None),
      (example_env 5000 ''000000'' True, ''guess'', None, None),
      (example_env 6000 ''000000'' True, ''guess'', None, None),
      (example_env 7000 ''000000'' True, ''guess'', None, None)] ''ann@x.org'' db_challenged"

definition example_user_locked :: User where
  "example_user_locked =
     example_user\<lparr> isLocked := Some True, failedAttempts := Some 5, lastFailedAttempt := Some 7000,
                    updatedAt_user := Some 7000 \<rparr>"

subsection \<open>Predicates of the specification\<close>



text \<open>Every stored challenge still has the default attempt counter.\<close>

definition attemptsDefault :: "db \<Rightarrow> bool" where
  "attemptsDefault d \<longleftrightarrow> (\<forall>otp\<in>set (otps d). attempts otp = Some 0)"


section \<open>Properties\<close>

subsection \<open>Lists and queries\<close>

lemma find_map_pres:
  assumes "\<And>x. P (f x) = P x"
  shows "find P (map f xs) = map_option f (find P xs)"
  using assms by (induction xs) auto

lemma length_filter_split:
  "length (filter (\<lambda>x. P x \<and> Q x) xs) + length (filter (\<lambda>x. P x \<and> \<not> Q x) xs) = length (filter P xs)"
  by (induction xs) auto

subsection \<open>The example run\<close>

lemma db_registered_eq:
  "db_registered =
     \<lparr> users = [example_user], otps = [], tasks = [],
       securityLogs = [\<lparr> id_log = 1, userId_log = Some 1, email_log = Some ''ann@x.org'',
                         action = ''USER_REGISTRATION'', details = Some ''New user registered'',
                         ipAddress = None, userAgent = None, success = True,
                         createdAt_log = Some 1000 \<rparr>],
       users_id_seq = 2, otps_id_seq = 1, securityLogs_id_seq = 2 \<rparr>"
  by (simp add: db_registered_def registerUser_def getUserByEmail_def initial_db_def createUser_def
      logSecurityEvent_def example_env_def example_user_def Let_def)

lemma db_challenged_eq:
  "db_challenged =
     \<lparr> users = [example_user], otps = [example_otp], tasks = [],
       securityLogs = [\<lparr> id_log = 1, userId_log = Some 1, email_log = Some ''ann@x.org'',
                         action = ''USER_REGISTRATION'', details = Some ''New user registered'',
                         ipAddress = None, userAgent = None, success = True,
                         createdAt_log = Some 1000 \<rparr>,
                       \<lparr> id_log = 2, userId_log = Some 1, email_log = Some ''ann@x.org'',
                         action = ''OTP_SENT'', details = Some ''OTP sent to email'',
                         ipAddress = None, userAgent = None, success = True,
                         createdAt_log = Some 2000 \<rparr>],
       users_id_seq = 2, otps_id_seq = 2, securityLogs_id_seq = 3 \<rparr>"
  by (simp add: db_challenged_def db_registered_eq initiateLogin_def getUserByEmail_def
      initiateLogin_lockout_def initiateLogin_password_def issueOTP_def createOTP_def
      logSecurityEvent_def example_env_def example_user_def example_otp_def truthy_def
      OTP_EXPIRY_MINUTES_def Let_def)

lemma reachable_db_registered: "reachable db_registered"
  unfolding db_registered_def by (intro reach_register reach_init)

lemma reachable_db_challenged: "reachable db_challenged"
  unfolding db_challenged_def by (intro reach_login reachable_db_registered)

lemma reachable_db_resent: "reachable db_resent"
  unfolding db_resent_def by (intro reach_resend reachable_db_challenged)

lemma getUserByEmail_db_challenged: "getUserByEmail db_challenged ''ann@x.org'' = Some example_user"
  by (simp add: db_challenged_eq getUserByEmail_def example_user_def)

lemma otps_db_challenged: "otps db_challenged = [example_otp]"
  by (simp add: db_challenged_eq)

lemma users_db_challenged: "users db_challenged = [example_user]"
  by (simp add: db_challenged_eq)

lemma otps_db_resent:
  "otps db_resent =
     [example_otp,
      \<lparr> id_otp = 2, email_otp = ''ann@x.org'', code = ''222222'', expiresAt = 603000,
        isUsed = Some False, attempts = Some 0, createdAt_otp = Some 3000 \<rparr>]"
  by (simp add: db_resent_def db_challenged_eq resendOTP_def getUserByEmail_def issueOTP_def
      createOTP_def logSecurityEvent_def example_env_def example_user_def OTP_EXPIRY_MINUTES_def Let_def)


lemma reachable_db_locked: "reachable db_locked"
  unfolding db_locked_def loginAttempts.simps by (intro reach_login reachable_db_challenged)

subsection \<open>Projections of the operations\<close>

lemma find_filter_imp:
  assumes "\<And>x. P x \<Longrightarrow> Q x"
  shows "find P (filter Q xs) = find P xs"
  using assms by (induction xs) auto

lemma getUserByEmail_cleanup [simp]:
  "getUserByEmail (cleanupExpiredOTPs now d) email = getUserByEmail d email"
  by (simp add: getUserByEmail_def cleanupExpiredOTPs_def)

lemma getValidOTP_cleanup [simp]:
  "getValidOTP now (cleanupExpiredOTPs now d) email c = getValidOTP now d email c"
proof -
  have "find (validOTP email c now) (filter (\<lambda>x. \<not> expiresAt x < now) (otps d))
          = find (validOTP email c now) (otps d)"
    by (rule find_filter_imp) (simp add: validOTP_def)
  then show ?thesis by (simp add: getValidOTP_def cleanupExpiredOTPs_def)
qed

lemma otps_logSecurityEvent [simp]: "otps (logSecurityEvent now uid em act det ip ua ok d) = otps d"
  by (simp add: logSecurityEvent_def)

lemma snd_issueOTP:
  "snd (issueOTP e user email act det ip ua d) =
     (let d1 = createOTP (clock e) email (generateOTPCode e) (clock e + OTP_EXPIRY_MINUTES * 60 * 1000) d
      in if sendMailOk e
         then logSecurityEvent (clock e) (Some (id_user user)) (Some email) act (Some det) ip ua True d1
         else d1)"
  by (simp add: issueOTP_def Let_def)

lemma fst_issueOTP:
  "fst (issueOTP e user email act det ip ua d) =
     (if sendMailOk e then Inr () else Inl (Error ''Failed to send verification email''))"
  by (simp add: issueOTP_def Let_def)

lemma snd_resendOTP:
  "snd (resendOTP e email ip ua d) =
     (case getUserByEmail d email of
        None \<Rightarrow> d
      | Some user \<Rightarrow> snd (issueOTP e user email ''OTP_RESENT'' ''OTP resent to email'' ip ua d))"
  by (simp add: resendOTP_def split: option.splits prod.splits sum.splits)

lemma fst_resendOTP:
  "fst (resendOTP e email ip ua d) =
     (case getUserByEmail d email of
        None \<Rightarrow> Inl (Error ''User not found'')
      | Some user \<Rightarrow> if sendMailOk e then Inr ''New OTP sent to your email''
                     else Inl (Error ''Failed to send verification email''))"
  by (simp add: resendOTP_def issueOTP_def Let_def split: option.splits)

lemma snd_initiateLogin_password:
  "snd (initiateLogin_password e user email pw ip ua d) =
     (if \<not> bcryptCompare e pw (password user) then
        (let n = orZero (failedAttempts user) + 1;
             d1 = updateFailedAttempts (clock e) email n d;
             d2 = (if n \<ge> MAX_LOGIN_ATTEMPTS then lockUser (clock e) email d1 else d1)
         in logSecurityEvent (clock e) (Some (id_user user)) (Some email) ''LOGIN_ATTEMPT''
              (Some (''Invalid password - attempt '' @ numberToString n)) ip ua False d2)
      else snd (issueOTP e user email ''OTP_SENT'' ''OTP sent to email'' ip ua d))"
  by (simp add: initiateLogin_password_def Let_def split: prod.splits sum.splits)

lemma fst_initiateLogin_password:
  "fst (initiateLogin_password e user email pw ip ua d) =
     (if \<not> bcryptCompare e pw (password user) then Inl (Error ''Invalid credentials'')
      else if \<not> sendMailOk e then Inl (Error ''Failed to send verification email'')
      else Inr (''OTP sent to your email'', email))"
  by (simp add: initiateLogin_password_def issueOTP_def Let_def)

lemma snd_initiateLogin:
  "snd (initiateLogin e email pw ip ua d) =
     (case getUserByEmail d email of
        None \<Rightarrow> logSecurityEvent (clock e) None (Some email) ''LOGIN_ATTEMPT'' (Some ''User not found'')
                  ip ua False d
      | Some user \<Rightarrow>
          (case initiateLogin_lockout e user email ip ua d of
             Inl x \<Rightarrow> snd x
           | Inr d1 \<Rightarrow> snd (initiateLogin_password e user email pw ip ua d1)))"
  by (simp add: initiateLogin_def split: option.splits prod.splits sum.splits)

lemma fst_initiateLogin:
  "fst (initiateLogin e email pw ip ua d) =
     (case getUserByEmail d email of
        None \<Rightarrow> Inl (Error ''Invalid credentials'')
      | Some user \<Rightarrow>
          (case initiateLogin_lockout e user email ip ua d of
             Inl x \<Rightarrow> Inl (fst x)
           | Inr d1 \<Rightarrow> fst (initiateLogin_password e user email pw ip ua d1)))"
  by (simp add: initiateLogin_def split: option.splits prod.splits sum.splits)

lemma otps_updateFailedAttempts [simp]: "otps (updateFailedAttempts now email n d) = otps d"
  by (simp add: updateFailedAttempts_def)

lemma otps_lockUser [simp]: "otps (lockUser now email d) = otps d"
  by (simp add: lockUser_def)

lemma otps_unlockUser [simp]: "otps (unlockUser now email d) = otps d"
  by (simp add: unlockUser_def)

lemma otps_updateUser [simp]: "otps (updateUser now uid f d) = otps d"
  by (simp add: updateUser_def)

lemma otps_createOTP:
  "otps (createOTP now email c expires d) =
     otps d @ [\<lparr> id_otp = otps_id_seq d, email_otp = email, code = c, expiresAt = expires,
                 isUsed = Some False, attempts = Some 0, createdAt_otp = Some now \<rparr>]"
  by (simp add: createOTP_def)

lemma otps_issueOTP:
  "otps (snd (issueOTP e user email act det ip ua d)) =
     otps d @ [\<lparr> id_otp = otps_id_seq d, email_otp = email, code = generateOTPCode e,
                 expiresAt = clock e + OTP_EXPIRY_MINUTES * 60 * 1000,
                 isUsed = Some False, attempts = Some 0, createdAt_otp = Some (clock e) \<rparr>]"
  by (simp add: snd_issueOTP otps_createOTP Let_def)

lemma otps_initiateLogin_lockout:
  "initiateLogin_lockout e user email ip ua d = Inl x \<Longrightarrow> otps (snd x) = otps d"
  "initiateLogin_lockout e user email ip ua d = Inr d1 \<Longrightarrow> otps d1 = otps d"
  by (auto simp: initiateLogin_lockout_def Let_def split: if_splits option.splits)

lemma otps_initiateLogin_password:
  "otps (snd (initiateLogin_password e user email pw ip ua d)) =
     (if bcryptCompare e pw (password user)
      then otps (snd (issueOTP e user email ''OTP_SENT'' ''OTP sent to email'' ip ua d))
      else otps d)"
  by (simp add: snd_initiateLogin_password Let_def)

lemma attemptsDefault_issueOTP:
  "attemptsDefault d \<Longrightarrow> attemptsDefault (snd (issueOTP e user email act det ip ua d))"
  by (simp add: attemptsDefault_def otps_issueOTP)

lemma attemptsDefault_registerUser:
  "attemptsDefault d \<Longrightarrow> attemptsDefault (snd (registerUser e email pw fn ln d))"
  by (auto simp: attemptsDefault_def registerUser_def createUser_def Let_def split: option.splits)

lemma attemptsDefault_resendOTP:
  "attemptsDefault d \<Longrightarrow> attemptsDefault (snd (resendOTP e email ip ua d))"
  by (simp add: snd_resendOTP attemptsDefault_issueOTP split: option.splits)

lemma attemptsDefault_initiateLogin:
  assumes "attemptsDefault d"
  shows "attemptsDefault (snd (initiateLogin e email pw ip ua d))"
proof (cases "getUserByEmail d email")
  case None
  with assms show ?thesis by (simp add: snd_initiateLogin attemptsDefault_def)
next
  case (Some user)
  show ?thesis
  proof (cases "initiateLogin_lockout e user email ip ua d")
    case (Inl x)
    with Some assms otps_initiateLogin_lockout(1) [OF Inl] show ?thesis
      by (simp add: snd_initiateLogin attemptsDefault_def)
  next
    case (Inr d1)
    with assms otps_initiateLogin_lockout(2) [OF Inr] have "attemptsDefault d1"
      by (simp add: attemptsDefault_def)
    then have "attemptsDefault (snd (initiateLogin_password e user email pw ip ua d1))"
      using attemptsDefault_issueOTP [of d1 e user email "''OTP_SENT''" "''OTP sent to email''" ip ua]
      by (simp add: attemptsDefault_def otps_initiateLogin_password)
    with Some Inr show ?thesis by (simp add: snd_initiateLogin)
  qed
qed

lemma attemptsDefault_verifyOTP:
  "attemptsDefault d \<Longrightarrow> attemptsDefault (snd (verifyOTP e email c ip ua d))"
  by (auto simp: attemptsDefault_def verifyOTP_def Let_def cleanupExpiredOTPs_def markOTPAsUsed_def
      updateUser_def split: option.splits)

lemma reachable_attemptsDefault: "reachable d \<Longrightarrow> attemptsDefault d"
proof (induction rule: reachable.induct)
  case reach_init
  show ?case by (simp add: attemptsDefault_def initial_db_def)
qed (simp_all add: attemptsDefault_registerUser attemptsDefault_initiateLogin
      attemptsDefault_verifyOTP attemptsDefault_resendOTP)


lemma fst_verifyOTP:
  "fst (verifyOTP e email c ip ua d) =
     (case getUserByEmail d email of
        None \<Rightarrow> Inl (Error ''User not found'')
      | Some user \<Rightarrow>
          (case getValidOTP (clock e) d email c of
             None \<Rightarrow> Inl (Error ''Invalid or expired OTP'')
           | Some otp \<Rightarrow>
               if orZero (attempts otp) \<ge> MAX_OTP_ATTEMPTS
               then Inl (Error ''Maximum OTP attempts exceeded'')
               else Inr \<lparr> id_profile = id_user user, email_profile = email_user user,
                          firstName_profile = firstName user, lastName_profile = lastName user,
                          profileImageUrl_profile = profileImageUrl user,
                          lastLogin_profile = lastLogin user \<rparr>))"
  by (simp add: verifyOTP_def Let_def split: option.splits)

lemma getValidOTP_None_iff:
  "getValidOTP now d email c = None \<longleftrightarrow> \<not> (\<exists>otp\<in>set (otps d). validOTP email c now otp)"
  by (auto simp: getValidOTP_def find_None_iff)

lemma getValidOTP_SomeD:
  "getValidOTP now d email c = Some otp \<Longrightarrow> otp \<in> set (otps d) \<and> validOTP email c now otp"
  by (auto simp: getValidOTP_def find_Some_iff)

lemma attemptsDefault_below_limit:
  assumes "attemptsDefault d" and "getValidOTP now d email c = Some otp"
  shows "\<not> orZero (attempts otp) \<ge> MAX_OTP_ATTEMPTS"
proof -
  from assms(2) have "otp \<in> set (otps d)" by (simp add: getValidOTP_SomeD)
  with assms(1) have "attempts otp = Some 0" by (simp add: attemptsDefault_def)
  then show ?thesis by (simp add: orZero_def MAX_OTP_ATTEMPTS_def)
qed

lemma verifyOTP_outcome:
  assumes "attemptsDefault d" and "getUserByEmail d email = Some user"
  shows "(\<not> isl (fst (verifyOTP e email c ip ua d))
            \<longleftrightarrow> (\<exists>otp\<in>set (otps d). validOTP email c (clock e) otp))
         \<and> (\<not> (\<exists>otp\<in>set (otps d). validOTP email c (clock e) otp)
            \<longrightarrow> fst (verifyOTP e email c ip ua d) = Inl (Error ''Invalid or expired OTP''))"
proof (cases "getValidOTP (clock e) d email c")
  case None
  then have "\<not> (\<exists>otp\<in>set (otps d). validOTP email c (clock e) otp)"
    by (simp add: getValidOTP_None_iff)
  moreover have "fst (verifyOTP e email c ip ua d) = Inl (Error ''Invalid or expired OTP'')"
    using assms(2) None by (simp add: fst_verifyOTP)
  ultimately show ?thesis by simp
next
  case (Some otp)
  from assms(1) Some
  have "\<not> orZero (attempts otp) \<ge> MAX_OTP_ATTEMPTS" by (rule attemptsDefault_below_limit)
  then have "\<not> isl (fst (verifyOTP e email c ip ua d))"
    using assms(2) Some by (simp add: fst_verifyOTP)
  moreover from getValidOTP_SomeD [OF Some]
  have "\<exists>otp\<in>set (otps d). validOTP email c (clock e) otp" by blast
  ultimately show ?thesis by simp
qed

lemma users_issueOTP [simp]: "users (snd (issueOTP e user email act det ip ua d)) = users d"
  by (simp add: snd_issueOTP createOTP_def logSecurityEvent_def Let_def)

lemma users_resendOTP [simp]: "users (snd (resendOTP e email ip ua d)) = users d"
  by (simp add: snd_resendOTP split: option.splits)

lemma snd_verifyOTP:
  "snd (verifyOTP e email c ip ua d) =
     (let d1 = cleanupExpiredOTPs (clock e) d
      in case getUserByEmail d email of
           None \<Rightarrow> d1
         | Some user \<Rightarrow>
             (case getValidOTP (clock e) d email c of
                None \<Rightarrow>
                  logSecurityEvent (clock e) (Some (id_user user)) (Some email) ''OTP_VERIFICATION''
                    (Some ''Invalid or expired OTP'') ip ua False d1
              | Some otp \<Rightarrow>
                  if orZero (attempts otp) \<ge> MAX_OTP_ATTEMPTS then
                    logSecurityEvent (clock e) (Some (id_user user)) (Some email) ''OTP_VERIFICATION''
                      (Some ''Maximum OTP attempts exceeded'') ip ua False d1
                  else
                    logSecurityEvent (clock e) (Some (id_user user)) (Some email) ''LOGIN_SUCCESS''
                      (Some ''Successful OTP verification'') ip ua True
                      (updateUser (clock e) (id_user user)
                         (\<lambda>u. u\<lparr> failedAttempts := Some 0, lastFailedAttempt := None,
                                 lastLogin := Some (clock e) \<rparr>)
                         (markOTPAsUsed (id_otp otp) d1))))"
  by (simp add: verifyOTP_def Let_def split: option.splits)

lemma users_logSecurityEvent [simp]: "users (logSecurityEvent now uid em act det ip ua ok d) = users d"
  by (simp add: logSecurityEvent_def)

lemma users_cleanupExpiredOTPs [simp]: "users (cleanupExpiredOTPs now d) = users d"
  by (simp add: cleanupExpiredOTPs_def)

lemma users_createOTP [simp]: "users (createOTP now email c expires d) = users d"
  by (simp add: createOTP_def)

lemma users_markOTPAsUsed [simp]: "users (markOTPAsUsed oid d) = users d"
  by (simp add: markOTPAsUsed_def)

subsection \<open>The account found after an update\<close>

lemma getUserByEmail_SomeD:
  "getUserByEmail d email = Some u \<Longrightarrow> email_user u = email \<and> u \<in> set (users d)"
  by (auto simp: getUserByEmail_def find_Some_iff)

lemma gu_logSecurityEvent [simp]:
  "getUserByEmail (logSecurityEvent now uid em act det ip ua ok d) email = getUserByEmail d email"
  by (simp add: getUserByEmail_def)

lemma gu_createOTP [simp]:
  "getUserByEmail (createOTP now em c expires d) email = getUserByEmail d email"
  by (simp add: getUserByEmail_def)

lemma gu_markOTPAsUsed [simp]:
  "getUserByEmail (markOTPAsUsed oid d) email = getUserByEmail d email"
  by (simp add: getUserByEmail_def)

lemma gu_issueOTP [simp]:
  "getUserByEmail (snd (issueOTP e user em act det ip ua d)) email = getUserByEmail d email"
  by (simp add: getUserByEmail_def)

lemma gu_resendOTP [simp]:
  "getUserByEmail (snd (resendOTP e em ip ua d)) email = getUserByEmail d email"
  by (simp add: getUserByEmail_def)



lemma gu_unlockUser:
  "getUserByEmail (unlockUser now em d) email =
     map_option (\<lambda>u. if email_user u = em
                      then u\<lparr> isLocked := Some False, failedAttempts := Some 0,
                              lastFailedAttempt := None, updatedAt_user := Some now \<rparr>
                      else u) (getUserByEmail d email)"
  unfolding getUserByEmail_def unlockUser_def by (simp add: find_map_pres)

lemma gu_updateUser:
  assumes "\<And>u. email_user (f u) = email_user u"
  shows "getUserByEmail (updateUser now uid f d) email =
     map_option (\<lambda>u. if id_user u = uid then (f u)\<lparr> updatedAt_user := Some now \<rparr> else u)
       (getUserByEmail d email)"
  unfolding getUserByEmail_def updateUser_def using assms by (simp add: find_map_pres)

lemma initiateLogin_lockout_cases:
  "initiateLogin_lockout e user email ip ua d =
     (if \<not> truthy (isLocked user) then Inr d
      else case lastFailedAttempt user of
             None \<Rightarrow> Inl (TypeError, d)
           | Some t \<Rightarrow>
               if clock e < t + LOCKOUT_DURATION_MINUTES * 60 * 1000
               then Inl (Error ''Account is locked due to too many failed attempts'',
                         logSecurityEvent (clock e) (Some (id_user user)) (Some email) ''LOGIN_ATTEMPT''
                           (Some ''Account locked'') ip ua False d)
               else Inr (unlockUser (clock e) email d))"
  by (simp add: initiateLogin_lockout_def Let_def split: option.splits)




subsection \<open>The lockout columns in reachable databases\<close>






subsection \<open>Consecutive wrong passwords\<close>



lemma initiateLogin_while_locked:
  assumes "getUserByEmail d email = Some u" and "isLocked u = Some True"
    and "lastFailedAttempt u = Some t" and "clock e < t + LOCKOUT_DURATION_MINUTES * 60 * 1000"
  shows "fst (initiateLogin e email pw ip ua d)
           = Inl (Error ''Account is locked due to too many failed attempts'')"
  using assms by (simp add: fst_initiateLogin initiateLogin_lockout_cases truthy_def)

lemma users_db_locked: "users db_locked = [example_user_locked]"
  by (simp add: db_locked_def db_challenged_eq initiateLogin_def getUserByEmail_def
      initiateLogin_lockout_def initiateLogin_password_def updateFailedAttempts_def lockUser_def
      logSecurityEvent_def example_env_def example_user_def example_user_locked_def truthy_def
      orZero_def MAX_LOGIN_ATTEMPTS_def Let_def)

subsection \<open>The audit log and the challenge table after an update\<close>

lemma logs_logSecurityEvent:
  "securityLogs (logSecurityEvent now uid em act det ip ua ok d) =
     securityLogs d @ [\<lparr> id_log = securityLogs_id_seq d, userId_log = uid, email_log = em,
                          action = act, details = det, ipAddress = ip, userAgent = ua, success = ok,
                          createdAt_log = Some now \<rparr>]"
  by (simp add: logSecurityEvent_def)

lemma logs_createOTP [simp]: "securityLogs (createOTP now email c expires d) = securityLogs d"
  by (simp add: createOTP_def)

lemma logs_updateFailedAttempts [simp]: "securityLogs (updateFailedAttempts now email n d) = securityLogs d"
  by (simp add: updateFailedAttempts_def)

lemma logs_lockUser [simp]: "securityLogs (lockUser now email d) = securityLogs d"
  by (simp add: lockUser_def)

lemma logs_unlockUser [simp]: "securityLogs (unlockUser now email d) = securityLogs d"
  by (simp add: unlockUser_def)

lemma logs_updateUser [simp]: "securityLogs (updateUser now uid f d) = securityLogs d"
  by (simp add: updateUser_def)

lemma logs_markOTPAsUsed [simp]: "securityLogs (markOTPAsUsed oid d) = securityLogs d"
  by (simp add: markOTPAsUsed_def)

lemma logs_cleanupExpiredOTPs [simp]: "securityLogs (cleanupExpiredOTPs now d) = securityLogs d"
  by (simp add: cleanupExpiredOTPs_def)

lemma otps_markOTPAsUsed:
  "otps (markOTPAsUsed oid d) = map (\<lambda>x. if id_otp x = oid then x\<lparr> isUsed := Some True \<rparr> else x) (otps d)"
  by (simp add: markOTPAsUsed_def)

lemma otps_cleanupExpiredOTPs:
  "otps (cleanupExpiredOTPs now d) = filter (\<lambda>x. \<not> expiresAt x < now) (otps d)"
  by (simp add: cleanupExpiredOTPs_def)

subsection \<open>Lockout after repeated wrong passwords\<close>



subsection \<open>When a code verifies\<close>

text \<open>
  C2. In every database the service can reach, for every existing account and every
  submitted code, \<open>verifyOTP\<close> succeeds if and only if some stored challenge for that
  email has the submitted code, is unused and expires after the time of the call;
  and when no stored challenge meets the three conditions the call fails with
  ``Invalid or expired OTP'', with no other error.
\<close>

theorem verifyOTP_succeeds_iff:
  assumes "reachable d" and "getUserByEmail d email = Some user"
  shows "(\<not> isl (fst (verifyOTP e email c ip ua d))
            \<longleftrightarrow> (\<exists>otp\<in>set (otps d). email_otp otp = email \<and> code otp = c
                    \<and> isUsed otp = Some False \<and> clock e < expiresAt otp))
         \<and> (\<not> (\<exists>otp\<in>set (otps d). email_otp otp = email \<and> code otp = c
                    \<and> isUsed otp = Some False \<and> clock e < expiresAt otp)
            \<longrightarrow> fst (verifyOTP e email c ip ua d) = Inl (Error ''Invalid or expired OTP''))"
  using verifyOTP_outcome [OF reachable_attemptsDefault [OF assms(1)] assms(2), of e c ip ua]
  by (simp add: validOTP_def)

theorem verifyOTP_succeeds_iff_witness:
  "reachable db_challenged
   \<and> getUserByEmail db_challenged ''ann@x.org'' = Some example_user
   \<and> \<not> isl (fst (verifyOTP (example_env 3000 ''000000'' True) ''ann@x.org'' ''111111'' None None
                    db_challenged))
   \<and> fst (verifyOTP (example_env 3000 ''000000'' True) ''ann@x.org'' ''999999'' None None db_challenged)
       = Inl (Error ''Invalid or expired OTP'')
   \<and> fst (verifyOTP (example_env 602000 ''000000'' True) ''ann@x.org'' ''111111'' None None db_challenged)
       = Inl (Error ''Invalid or expired OTP'')"
  using reachable_db_challenged getUserByEmail_db_challenged
    verifyOTP_succeeds_iff [OF reachable_db_challenged getUserByEmail_db_challenged,
      of "example_env 3000 ''000000'' True" "''111111''" None None]
    verifyOTP_succeeds_iff [OF reachable_db_challenged getUserByEmail_db_challenged,
      of "example_env 3000 ''000000'' True" "''999999''" None None]
    verifyOTP_succeeds_iff [OF reachable_db_challenged getUserByEmail_db_challenged,
      of "example_env 602000 ''000000'' True" "''111111''" None None]
  by (simp add: db_challenged_eq example_otp_def example_env_def)

subsection \<open>Security events per call\<close>

text \<open>
  C3 (as claimed: every terminal outcome of \<open>initiateLogin\<close> writes exactly one
  Security Event) fails. When the password is right and the mail transport fails,
  \<open>initiateLogin\<close> throws ``Failed to send verification email'' after storing the
  challenge and before logging: the audit log is unchanged.
\<close>

theorem mail_failure_unlogged_counterexample:
  "fst (initiateLogin (example_env 2000 ''111111'' False) ''ann@x.org'' ''secret'' None None db_registered)
     = Inl (Error ''Failed to send verification email'')
   \<and> securityLogs (snd (initiateLogin (example_env 2000 ''111111'' False) ''ann@x.org'' ''secret''
                           None None db_registered))
       = securityLogs db_registered
   \<and> length (otps (snd (initiateLogin (example_env 2000 ''111111'' False) ''ann@x.org'' ''secret''
                           None None db_registered))) = 1"
  by (simp add: db_registered_eq initiateLogin_def getUserByEmail_def
      initiateLogin_lockout_def initiateLogin_password_def issueOTP_def createOTP_def
      example_env_def example_user_def truthy_def Let_def)

text \<open>
  C3, amended. A call of \<open>initiateLogin\<close> that returns, or fails with ``Invalid
  credentials'' or ``Account is locked ...'', appends exactly one Security Event,
  whose success flag tells whether the call returned; a call that fails because the
  mail could not be sent appends none. A call of \<open>verifyOTP\<close> for an existing account
  appends exactly one Security Event, whose success flag tells whether the call
  returned.
\<close>

theorem security_events_written:
  "(fst (initiateLogin e email pw ip ua d)
      \<notin> {Inl TypeError, Inl (Error ''Failed to send verification email'')}
    \<longrightarrow> (\<exists>ev. securityLogs (snd (initiateLogin e email pw ip ua d)) = securityLogs d @ [ev]
              \<and> success ev = (\<not> isl (fst (initiateLogin e email pw ip ua d)))))
   \<and> (fst (initiateLogin e email pw ip ua d) = Inl (Error ''Failed to send verification email'')
    \<longrightarrow> securityLogs (snd (initiateLogin e email pw ip ua d)) = securityLogs d)
   \<and> (getUserByEmail d email' \<noteq> None
    \<longrightarrow> (\<exists>ev. securityLogs (snd (verifyOTP e' email' c ip' ua' d)) = securityLogs d @ [ev]
              \<and> success ev = (\<not> isl (fst (verifyOTP e' email' c ip' ua' d)))))"
proof -
  let ?r = "initiateLogin e email pw ip ua d"
  have a: "\<exists>ev. securityLogs (snd ?r) = securityLogs d @ [ev] \<and> success ev = (\<not> isl (fst ?r))"
    if "fst ?r \<notin> {Inl TypeError, Inl (Error ''Failed to send verification email'')}"
    using that
    by (auto simp: fst_initiateLogin snd_initiateLogin initiateLogin_lockout_cases
        fst_initiateLogin_password snd_initiateLogin_password snd_issueOTP logs_logSecurityEvent
        Let_def split: option.splits if_splits)
  have b: "securityLogs (snd ?r) = securityLogs d"
    if "fst ?r = Inl (Error ''Failed to send verification email'')"
    using that
    by (auto simp: fst_initiateLogin snd_initiateLogin initiateLogin_lockout_cases
        fst_initiateLogin_password snd_initiateLogin_password snd_issueOTP logs_logSecurityEvent
        Let_def split: option.splits if_splits)
  let ?v = "verifyOTP e' email' c ip' ua' d"
  have c: "\<exists>ev. securityLogs (snd ?v) = securityLogs d @ [ev] \<and> success ev = (\<not> isl (fst ?v))"
    if "getUserByEmail d email' \<noteq> None"
    using that
    by (auto simp: fst_verifyOTP snd_verifyOTP logs_logSecurityEvent Let_def split: option.splits)
  from a b c show ?thesis by blast
qed

theorem security_events_written_witness:
  "length (securityLogs (snd (initiateLogin (example_env 3000 ''222222'' True) ''ann@x.org'' ''guess''
                                 None None db_challenged)))
     = length (securityLogs db_challenged) + 1
   \<and> securityLogs (snd (initiateLogin (example_env 3000 ''222222'' False) ''ann@x.org'' ''secret''
                                 None None db_challenged))
     = securityLogs db_challenged
   \<and> length (securityLogs (snd (verifyOTP (example_env 3000 ''000000'' True) ''ann@x.org'' ''999999''
                                 None None db_challenged)))
     = length (securityLogs db_challenged) + 1"
proof -
  let ?w = "example_env 3000 ''222222'' True" and ?m = "example_env 3000 ''222222'' False"
  have l: "initiateLogin_lockout en example_user ''ann@x.org'' None None db_challenged
             = Inr db_challenged" for en
    by (simp add: initiateLogin_lockout_cases example_user_def truthy_def)
  have w: "fst (initiateLogin ?w ''ann@x.org'' ''guess'' None None db_challenged)
             = Inl (Error ''Invalid credentials'')"
    by (simp add: fst_initiateLogin getUserByEmail_db_challenged l fst_initiateLogin_password)
       (simp add: example_env_def example_user_def)
  have m: "fst (initiateLogin ?m ''ann@x.org'' ''secret'' None None db_challenged)
             = Inl (Error ''Failed to send verification email'')"
    by (simp add: fst_initiateLogin getUserByEmail_db_challenged l fst_initiateLogin_password)
       (simp add: example_env_def example_user_def)
  have u: "getUserByEmail db_challenged ''ann@x.org'' \<noteq> None"
    by (simp add: getUserByEmail_db_challenged)
  from security_events_written [of ?w "''ann@x.org''" "''guess''" None None db_challenged
      "''ann@x.org''" "example_env 3000 ''000000'' True" "''999999''" None None] w u
  have "length (securityLogs (snd (initiateLogin ?w ''ann@x.org'' ''guess'' None None db_challenged)))
          = length (securityLogs db_challenged) + 1"
    and "length (securityLogs (snd (verifyOTP (example_env 3000 ''000000'' True) ''ann@x.org'' ''999999''
                                 None None db_challenged)))
          = length (securityLogs db_challenged) + 1"
    by auto
  moreover
  from security_events_written [of ?m "''ann@x.org''" "''secret''" None None db_challenged] m
  have "securityLogs (snd (initiateLogin ?m ''ann@x.org'' ''secret'' None None db_challenged))
          = securityLogs db_challenged"
    by simp
  ultimately show ?thesis by simp
qed

subsection \<open>Several live challenges for one email\<close>




subsection \<open>The attempt counter of a challenge\<close>

text \<open>
  C5. No operation of the service writes the attempt counter of a challenge after its
  creation with the default 0 (\<open>incrementOTPAttempts\<close> is called by none of them).
  Hence in every reachable database every stored challenge has \<open>attempts = 0\<close>, and
  \<open>verifyOTP\<close> never fails with ``Maximum OTP attempts exceeded''.
\<close>

theorem attempts_never_incremented:
  assumes "reachable d"
  shows "(\<forall>otp\<in>set (otps d). attempts otp = Some 0)
         \<and> fst (verifyOTP e email c ip ua d) \<noteq> Inl (Error ''Maximum OTP attempts exceeded'')"
proof -
  have a: "attemptsDefault d" using assms by (rule reachable_attemptsDefault)
  have "fst (verifyOTP e email c ip ua d) \<noteq> Inl (Error ''Maximum OTP attempts exceeded'')"
  proof (cases "getUserByEmail d email")
    case None
    then show ?thesis by (simp add: fst_verifyOTP)
  next
    case u: (Some user)
    show ?thesis
    proof (cases "getValidOTP (clock e) d email c")
      case None
      with u show ?thesis by (simp add: fst_verifyOTP)
    next
      case (Some otp)
      with a have "\<not> orZero (attempts otp) \<ge> MAX_OTP_ATTEMPTS" by (rule attemptsDefault_below_limit)
      with u Some show ?thesis by (simp add: fst_verifyOTP)
    qed
  qed
  with a show ?thesis by (simp add: attemptsDefault_def)
qed

theorem attempts_never_incremented_witness:
  "reachable db_resent
   \<and> map attempts (otps db_resent) = [Some 0, Some 0]
   \<and> fst (verifyOTP (example_env 4000 ''000000'' True) ''ann@x.org'' ''111111'' None None db_resent)
       \<noteq> Inl (Error ''Maximum OTP attempts exceeded'')"
  using reachable_db_resent
    attempts_never_incremented [OF reachable_db_resent,
      of "example_env 4000 ''000000'' True" "''ann@x.org''" "''111111''" None None]
  by (simp add: otps_db_resent example_otp_def)

subsection \<open>Unknown email and wrong password\<close>

text \<open>
  C6 (as claimed: for every email and password the error for an unknown email is the
  error for a known email with a wrong password) fails. Ann's account is locked
  after five wrong passwords; at time 8000 a wrong password for her email answers
  ``Account is locked due to too many failed attempts'', the same call for the
  unknown email of Bob answers ``Invalid credentials'': the two runs differ.
\<close>

theorem locked_account_distinguishable_counterexample:
  "reachable db_locked
   \<and> getUserByEmail db_locked ''bob@x.org'' = None
   \<and> getUserByEmail db_locked ''ann@x.org'' = Some example_user_locked
   \<and> \<not> bcryptCompare (example_env 8000 ''000000'' True) ''guess'' (password example_user_locked)
   \<and> fst (initiateLogin (example_env 8000 ''000000'' True) ''bob@x.org'' ''guess'' None None db_locked)
       = Inl (Error ''Invalid credentials'')
   \<and> fst (initiateLogin (example_env 8000 ''000000'' True) ''ann@x.org'' ''guess'' None None db_locked)
       = Inl (Error ''Account is locked due to too many failed attempts'')"
proof -
  have b: "getUserByEmail db_locked ''bob@x.org'' = None"
    by (simp add: getUserByEmail_def users_db_locked example_user_locked_def example_user_def)
  have a: "getUserByEmail db_locked ''ann@x.org'' = Some example_user_locked"
    by (simp add: getUserByEmail_def users_db_locked example_user_locked_def example_user_def)
  have w: "\<not> bcryptCompare (example_env 8000 ''000000'' True) ''guess'' (password example_user_locked)"
    by (simp add: example_env_def example_user_locked_def example_user_def)
  have k: "isLocked example_user_locked = Some True"
    and l: "lastFailedAttempt example_user_locked = Some 7000"
    by (simp_all add: example_user_locked_def)
  have c: "clock (example_env 8000 ''000000'' True) < 7000 + LOCKOUT_DURATION_MINUTES * 60 * 1000"
    by (simp add: example_env_def LOCKOUT_DURATION_MINUTES_def)
  have "fst (initiateLogin (example_env 8000 ''000000'' True) ''bob@x.org'' ''guess'' None None db_locked)
          = Inl (Error ''Invalid credentials'')"
    using b by (simp add: fst_initiateLogin)
  moreover
  have "fst (initiateLogin (example_env 8000 ''000000'' True) ''ann@x.org'' ''guess'' None None db_locked)
          = Inl (Error ''Account is locked due to too many failed attempts'')"
    using a k l c by (rule initiateLogin_while_locked)
  ultimately show ?thesis using reachable_db_locked a b w by simp
qed

text \<open>
  C6, amended. \<open>initiateLogin\<close> with an unknown email fails with ``Invalid
  credentials'', and that error is the very error of \<open>initiateLogin\<close> with a known
  email and a wrong password whenever the known account is not in an active lockout
  (it is not locked, or it is locked and its lockout window has elapsed): the same
  kind and the same message, whatever the emails, passwords and client contexts of
  the two runs.
\<close>

theorem initiateLogin_unknown_like_wrong_password:
  assumes "getUserByEmail d1 email1 = None"
    and "getUserByEmail d2 email2 = Some user"
    and "\<not> truthy (isLocked user)
         \<or> (\<exists>t. lastFailedAttempt user = Some t \<and> clock e2 \<ge> t + LOCKOUT_DURATION_MINUTES * 60 * 1000)"
    and "\<not> bcryptCompare e2 pw2 (password user)"
  shows "fst (initiateLogin e1 email1 pw1 ip1 ua1 d1) = Inl (Error ''Invalid credentials'')
         \<and> fst (initiateLogin e2 email2 pw2 ip2 ua2 d2) = fst (initiateLogin e1 email1 pw1 ip1 ua1 d1)"
proof -
  have a: "fst (initiateLogin e1 email1 pw1 ip1 ua1 d1) = Inl (Error ''Invalid credentials'')"
    using assms(1) by (simp add: fst_initiateLogin)
  have "\<exists>d'. initiateLogin_lockout e2 user email2 ip2 ua2 d2 = Inr d'"
  proof (cases "truthy (isLocked user)")
    case True
    with assms(3) obtain t where "lastFailedAttempt user = Some t"
      and "clock e2 \<ge> t + LOCKOUT_DURATION_MINUTES * 60 * 1000" by blast
    with True show ?thesis by (simp add: initiateLogin_lockout_cases)
  next
    case False
    then show ?thesis by (simp add: initiateLogin_lockout_cases)
  qed
  then obtain d' where "initiateLogin_lockout e2 user email2 ip2 ua2 d2 = Inr d'" ..
  then have "fst (initiateLogin e2 email2 pw2 ip2 ua2 d2) = Inl (Error ''Invalid credentials'')"
    using assms(2,4) by (simp add: fst_initiateLogin fst_initiateLogin_password)
  with a show ?thesis by simp
qed

theorem initiateLogin_unknown_like_wrong_password_witness:
  "fst (initiateLogin (example_env 2000 ''111111'' True) ''bob@x.org'' ''guess'' None None db_challenged)
     = Inl (Error ''Invalid credentials'')
   \<and> fst (initiateLogin (example_env 2000 ''111111'' True) ''ann@x.org'' ''guess'' None None db_challenged)
     = fst (initiateLogin (example_env 2000 ''111111'' True) ''bob@x.org'' ''guess'' None None
              db_challenged)"
proof -
  have n: "getUserByEmail db_challenged ''bob@x.org'' = None"
    by (simp add: db_challenged_eq getUserByEmail_def example_user_def)
  have l: "\<not> truthy (isLocked example_user)
         \<or> (\<exists>t. lastFailedAttempt example_user = Some t
                \<and> clock (example_env 2000 ''111111'' True) \<ge> t + LOCKOUT_DURATION_MINUTES * 60 * 1000)"
    by (simp add: example_user_def truthy_def)
  have w: "\<not> bcryptCompare (example_env 2000 ''111111'' True) ''guess'' (password example_user)"
    by (simp add: example_env_def example_user_def)
  show ?thesis
    by (rule initiateLogin_unknown_like_wrong_password [OF n getUserByEmail_db_challenged l w])
qed

subsection \<open>A lockout whose window has elapsed\<close>

text \<open>
  C7. For an account with \<open>isLocked\<close> true whose lockout window has elapsed (the time
  of the call is at least \<open>lastFailedAttempt\<close> plus \<open>LOCKOUT_DURATION_MINUTES\<close>), the
  lockout check of \<open>initiateLogin\<close> clears the lockout in the database
  (\<open>failedAttempts\<close> 0, \<open>isLocked\<close> false), the password check then runs on that
  database, and the call does not fail with ``Account is locked ...''.
\<close>

theorem initiateLogin_clears_elapsed_lockout:
  assumes "getUserByEmail d email = Some user"
    and "isLocked user = Some True"
    and "lastFailedAttempt user = Some t"
    and "clock e \<ge> t + LOCKOUT_DURATION_MINUTES * 60 * 1000"
  shows "initiateLogin_lockout e user email ip ua d = Inr (unlockUser (clock e) email d)
         \<and> (\<exists>u. getUserByEmail (unlockUser (clock e) email d) email = Some u
                \<and> failedAttempts u = Some 0 \<and> isLocked u = Some False)
         \<and> initiateLogin e email pw ip ua d
             = initiateLogin_password e user email pw ip ua (unlockUser (clock e) email d)
         \<and> fst (initiateLogin e email pw ip ua d)
             \<noteq> Inl (Error ''Account is locked due to too many failed attempts'')"
proof -
  have g: "initiateLogin_lockout e user email ip ua d = Inr (unlockUser (clock e) email d)"
    using assms(2-4) by (simp add: initiateLogin_lockout_cases truthy_def)
  have em: "email_user user = email"
    using assms(1) by (simp add: getUserByEmail_SomeD)
  have u: "\<exists>u. getUserByEmail (unlockUser (clock e) email d) email = Some u
                \<and> failedAttempts u = Some 0 \<and> isLocked u = Some False"
    using assms(1) em by (simp add: gu_unlockUser)
  have i: "initiateLogin e email pw ip ua d
             = initiateLogin_password e user email pw ip ua (unlockUser (clock e) email d)"
    using assms(1) g by (simp add: initiateLogin_def)
  have n: "fst (initiateLogin e email pw ip ua d)
             \<noteq> Inl (Error ''Account is locked due to too many failed attempts'')"
    unfolding i by (simp add: fst_initiateLogin_password)
  from g u i n show ?thesis by blast
qed

theorem initiateLogin_clears_elapsed_lockout_witness:
  "initiateLogin_lockout (example_env 1807000 ''333333'' True) example_user_locked ''ann@x.org'' None None
       db_locked = Inr (unlockUser 1807000 ''ann@x.org'' db_locked)
   \<and> users (unlockUser 1807000 ''ann@x.org'' db_locked)
       = [example_user\<lparr> updatedAt_user := Some 1807000 \<rparr>]
   \<and> fst (initiateLogin (example_env 1807000 ''333333'' True) ''ann@x.org'' ''secret'' None None db_locked)
       \<noteq> Inl (Error ''Account is locked due to too many failed attempts'')"
proof -
  have g: "getUserByEmail db_locked ''ann@x.org'' = Some example_user_locked"
    by (simp add: getUserByEmail_def users_db_locked example_user_locked_def example_user_def)
  have k: "isLocked example_user_locked = Some True"
    and l: "lastFailedAttempt example_user_locked = Some 7000"
    by (simp_all add: example_user_locked_def)
  have c: "clock (example_env 1807000 ''333333'' True) \<ge> 7000 + LOCKOUT_DURATION_MINUTES * 60 * 1000"
    and c': "clock (example_env 1807000 ''333333'' True) = 1807000"
    by (simp_all add: example_env_def LOCKOUT_DURATION_MINUTES_def)
  have u: "users (unlockUser 1807000 ''ann@x.org'' db_locked)
             = [example_user\<lparr> updatedAt_user := Some 1807000 \<rparr>]"
    by (simp add: unlockUser_def users_db_locked example_user_locked_def example_user_def)
  note t = initiateLogin_clears_elapsed_lockout [OF g k l c, of None None "''secret''", unfolded c']
  from t u show ?thesis by blast
qed

subsection \<open>A successful verification\<close>

text \<open>
  C8. When \<open>verifyOTP\<close> succeeds, the challenge it matched (the one \<open>getValidOTP\<close>
  returns) is stored as used, the account's \<open>failedAttempts\<close> is 0, its
  \<open>lastFailedAttempt\<close> is cleared and its \<open>lastLogin\<close> is the time of the call, and
  the value returned is the profile (id, email, first and last name, profile image
  reference, \<open>lastLogin\<close>) of the account as it was read at the start of the call.
\<close>

theorem verifyOTP_success_effects:
  assumes "verifyOTP e email c ip ua d = (Inr profile, d')"
  shows "\<exists>user otp.
           getUserByEmail d email = Some user \<and> getValidOTP (clock e) d email c = Some otp
           \<and> otp \<in> set (otps d)
           \<and> otp\<lparr> isUsed := Some True \<rparr> \<in> set (otps d')
           \<and> (\<forall>x\<in>set (otps d'). id_otp x = id_otp otp \<longrightarrow> isUsed x = Some True)
           \<and> (\<exists>u'. getUserByEmail d' email = Some u' \<and> failedAttempts u' = Some 0
                    \<and> lastFailedAttempt u' = None \<and> lastLogin u' = Some (clock e))
           \<and> profile = \<lparr> id_profile = id_user user, email_profile = email_user user,
                          firstName_profile = firstName user, lastName_profile = lastName user,
                          profileImageUrl_profile = profileImageUrl user,
                          lastLogin_profile = lastLogin user \<rparr>"
proof -
  from assms have f: "fst (verifyOTP e email c ip ua d) = Inr profile"
    and s: "snd (verifyOTP e email c ip ua d) = d'" by simp_all
  from f obtain user where u: "getUserByEmail d email = Some user"
    by (cases "getUserByEmail d email") (auto simp: fst_verifyOTP)
  from f u obtain otp where o: "getValidOTP (clock e) d email c = Some otp"
    by (cases "getValidOTP (clock e) d email c") (auto simp: fst_verifyOTP)
  from f u o have a: "\<not> orZero (attempts otp) \<ge> MAX_OTP_ATTEMPTS"
    by (auto simp: fst_verifyOTP split: if_splits)
  from f u o a have p: "profile = \<lparr> id_profile = id_user user, email_profile = email_user user,
                          firstName_profile = firstName user, lastName_profile = lastName user,
                          profileImageUrl_profile = profileImageUrl user,
                          lastLogin_profile = lastLogin user \<rparr>"
    by (simp add: fst_verifyOTP)
  let ?reset = "\<lambda>u. u\<lparr> failedAttempts := Some 0, lastFailedAttempt := None, lastLogin := Some (clock e) \<rparr>"
  from s u o a have d': "d' = logSecurityEvent (clock e) (Some (id_user user)) (Some email) ''LOGIN_SUCCESS''
                      (Some ''Successful OTP verification'') ip ua True
                      (updateUser (clock e) (id_user user) ?reset
                         (markOTPAsUsed (id_otp otp) (cleanupExpiredOTPs (clock e) d)))"
    by (simp add: snd_verifyOTP Let_def)
  from getValidOTP_SomeD [OF o] have m: "otp \<in> set (otps d)" and v: "validOTP email c (clock e) otp"
    by simp_all
  from v have "\<not> expiresAt otp < clock e" by (simp add: validOTP_def)
  with m have k: "otp \<in> set (otps (cleanupExpiredOTPs (clock e) d))"
    by (simp add: otps_cleanupExpiredOTPs)
  have o': "otps d' = map (\<lambda>x. if id_otp x = id_otp otp then x\<lparr> isUsed := Some True \<rparr> else x)
                       (otps (cleanupExpiredOTPs (clock e) d))"
    by (simp add: d' otps_markOTPAsUsed)
  from k have used: "otp\<lparr> isUsed := Some True \<rparr> \<in> set (otps d')"
    unfolding o' by (force simp: image_iff)
  have all: "\<forall>x\<in>set (otps d'). id_otp x = id_otp otp \<longrightarrow> isUsed x = Some True"
    unfolding o' by auto
  have acct: "\<exists>u'. getUserByEmail d' email = Some u' \<and> failedAttempts u' = Some 0
                    \<and> lastFailedAttempt u' = None \<and> lastLogin u' = Some (clock e)"
    using u by (simp add: d' gu_updateUser)
  from u o m used all acct p show ?thesis by blast
qed

theorem verifyOTP_success_effects_witness:
  "fst (verifyOTP (example_env 3000 ''000000'' True) ''ann@x.org'' ''111111'' None None db_challenged)
     = Inr \<lparr> id_profile = 1, email_profile = ''ann@x.org'', firstName_profile = Some ''Ann'',
             lastName_profile = None, profileImageUrl_profile = None, lastLogin_profile = None \<rparr>
   \<and> otps (snd (verifyOTP (example_env 3000 ''000000'' True) ''ann@x.org'' ''111111'' None None
                   db_challenged)) = [example_otp\<lparr> isUsed := Some True \<rparr>]
   \<and> users (snd (verifyOTP (example_env 3000 ''000000'' True) ''ann@x.org'' ''111111'' None None
                   db_challenged))
       = [example_user\<lparr> lastLogin := Some 3000, updatedAt_user := Some 3000 \<rparr>]"
proof -
  let ?r = "verifyOTP (example_env 3000 ''000000'' True) ''ann@x.org'' ''111111'' None None db_challenged"
  have v: "getValidOTP 3000 db_challenged ''ann@x.org'' ''111111'' = Some example_otp"
    by (simp add: getValidOTP_def db_challenged_eq validOTP_def example_otp_def)
  have c: "clock (example_env 3000 ''000000'' True) = 3000" by (simp add: example_env_def)
  have a: "\<not> MAX_OTP_ATTEMPTS \<le> orZero (attempts example_otp)"
    by (simp add: example_otp_def orZero_def MAX_OTP_ATTEMPTS_def)
  have f: "fst ?r = Inr \<lparr> id_profile = 1, email_profile = ''ann@x.org'', firstName_profile = Some ''Ann'',
             lastName_profile = None, profileImageUrl_profile = None, lastLogin_profile = None \<rparr>"
    using a by (simp add: fst_verifyOTP getUserByEmail_db_challenged c v) (simp add: example_user_def)
  have s: "?r = (fst ?r, snd ?r)" by simp
  from verifyOTP_success_effects [OF s [unfolded f]]
  have "example_otp\<lparr> isUsed := Some True \<rparr> \<in> set (otps (snd ?r))"
    by (auto simp: c v)
  moreover have "otps (snd ?r) = [example_otp\<lparr> isUsed := Some True \<rparr>]"
    using a by (simp add: snd_verifyOTP getUserByEmail_db_challenged c v Let_def otps_markOTPAsUsed
        otps_cleanupExpiredOTPs otps_db_challenged) (simp add: example_otp_def)
  moreover have "users (snd ?r) = [example_user\<lparr> lastLogin := Some 3000, updatedAt_user := Some 3000 \<rparr>]"
    using a by (simp add: snd_verifyOTP getUserByEmail_db_challenged c v Let_def updateUser_def
        users_db_challenged) (simp add: example_user_def)
  ultimately show ?thesis using f by simp
qed

subsection \<open>Verification with an expired code\<close>

text \<open>
  C9. When the account exists and every stored challenge for the submitted email and
  code is expired (its expiry lies before the time of the call), \<open>verifyOTP\<close> fails
  with the message ``Invalid or expired OTP'' and leaves the table of accounts as it
  was: no column of any account changes.
\<close>

theorem verifyOTP_expired:
  assumes "getUserByEmail d email = Some user"
    and "\<forall>otp\<in>set (otps d). email_otp otp = email \<and> code otp = c \<longrightarrow> clock e > expiresAt otp"
  shows "fst (verifyOTP e email c ip ua d) = Inl (Error ''Invalid or expired OTP'')
         \<and> users (snd (verifyOTP e email c ip ua d)) = users d"
proof -
  have v: "getValidOTP (clock e) d email c = None"
    using assms(2) by (auto simp: getValidOTP_None_iff validOTP_def)
  have "fst (verifyOTP e email c ip ua d) = Inl (Error ''Invalid or expired OTP'')"
    by (simp add: fst_verifyOTP assms(1) v)
  moreover have "users (snd (verifyOTP e email c ip ua d)) = users d"
    by (simp add: snd_verifyOTP assms(1) v)
  ultimately show ?thesis by simp
qed

theorem verifyOTP_expired_witness:
  "getUserByEmail db_challenged ''ann@x.org'' = Some example_user
   \<and> (\<exists>otp\<in>set (otps db_challenged). email_otp otp = ''ann@x.org'' \<and> code otp = ''111111'')
   \<and> fst (verifyOTP (example_env 602001 ''000000'' True) ''ann@x.org'' ''111111'' None None db_challenged)
       = Inl (Error ''Invalid or expired OTP'')
   \<and> users (snd (verifyOTP (example_env 602001 ''000000'' True) ''ann@x.org'' ''111111'' None None
                   db_challenged)) = users db_challenged"
proof -
  have u: "getUserByEmail db_challenged ''ann@x.org'' = Some example_user"
    by (simp add: db_challenged_eq getUserByEmail_def example_user_def)
  have x: "\<forall>otp\<in>set (otps db_challenged). email_otp otp = ''ann@x.org'' \<and> code otp = ''111111''
             \<longrightarrow> clock (example_env 602001 ''000000'' True) > expiresAt otp"
    by (simp add: db_challenged_eq example_otp_def example_env_def)
  have y: "\<exists>otp\<in>set (otps db_challenged). email_otp otp = ''ann@x.org'' \<and> code otp = ''111111''"
    by (simp add: db_challenged_eq example_otp_def)
  from verifyOTP_expired [OF u x] u y show ?thesis by simp
qed

subsection \<open>Task analytics\<close>

text \<open>
  C10. The analytics of a user satisfy \<open>completed + pending = total\<close>: \<open>completed\<close>
  counts the user's tasks whose \<open>isCompleted\<close> is true, \<open>pending\<close> the user's other
  tasks, \<open>total\<close> all tasks of the user.
\<close>

theorem getTaskAnalytics_partition:
  "completed (getTaskAnalytics d uid) + pending (getTaskAnalytics d uid) = total (getTaskAnalytics d uid)
   \<and> completed (getTaskAnalytics d uid)
       = length (filter (\<lambda>t. userId_task t = uid \<and> isCompleted t = Some True) (tasks d))
   \<and> pending (getTaskAnalytics d uid)
       = length (filter (\<lambda>t. userId_task t = uid \<and> isCompleted t \<noteq> Some True) (tasks d))
   \<and> total (getTaskAnalytics d uid) = length (filter (\<lambda>t. userId_task t = uid) (tasks d))"
proof -
  let ?P = "\<lambda>t. userId_task t = uid" and ?Q = "\<lambda>t. isCompleted t = Some True"
  have c: "completed (getTaskAnalytics d uid) = length (filter (\<lambda>t. ?P t \<and> ?Q t) (tasks d))"
    by (simp add: getTaskAnalytics_def Let_def truthy_def conj_commute)
  have p: "pending (getTaskAnalytics d uid) = length (filter (\<lambda>t. ?P t \<and> \<not> ?Q t) (tasks d))"
    by (simp add: getTaskAnalytics_def Let_def truthy_def conj_commute)
  have t: "total (getTaskAnalytics d uid) = length (filter ?P (tasks d))"
    by (simp add: getTaskAnalytics_def Let_def)
  from c p t length_filter_split [of ?P ?Q "tasks d"] show ?thesis by simp
qed

theorem getTaskAnalytics_partition_witness:
  "completed (getTaskAnalytics (initial_db\<lparr> tasks := example_tasks \<rparr>) 1) = 1
   \<and> pending (getTaskAnalytics (initial_db\<lparr> tasks := example_tasks \<rparr>) 1) = 1
   \<and> total (getTaskAnalytics (initial_db\<lparr> tasks := example_tasks \<rparr>) 1) = 2"
  using getTaskAnalytics_partition [of "initial_db\<lparr> tasks := example_tasks \<rparr>" 1]
  by (simp add: example_tasks_def)

end
